theory Spec2Isabelle
  imports Complex_Main "HOL-Library.Multiset" "HOL-Library.Signed_Division"
begin

section \<open>The scheduling core of gordpool (package planner)\<close>

text \<open>
  The development embeds \<^verbatim>\<open>inferResolutionMinutes\<close>, \<^verbatim>\<open>slotsForHours\<close>,
  \<^verbatim>\<open>groupConsecutiveSlots\<close> and \<^verbatim>\<open>BuildBatterySchedule\<close> of
  \<^verbatim>\<open>pkg/planner\<close>.

  Conventions of the embedding:
  \<^item> a \<^verbatim>\<open>time.Time\<close> is the integer number of nanoseconds since a fixed epoch
    (unbounded, as wall-clock instants reach far beyond 64 bits of nanoseconds);
    a \<^verbatim>\<open>time.Duration\<close> is an \<^verbatim>\<open>int64\<close> of nanoseconds;
  \<^item> a \<^verbatim>\<open>float64\<close> that holds a price, a number of hours or a number of minutes is a
    real number, and arithmetic on it is exact; the special values that the division in
    \<^verbatim>\<open>slotsForHours\<close> can produce are kept apart in the type \<open>fval\<close>;
  \<^item> a slice that reaches the output keeps the difference between \<^verbatim>\<open>nil\<close> and an
    empty slice (\<open>None\<close> and \<open>Some []\<close>), since \<^verbatim>\<open>encoding/json\<close> prints them as
    \<^verbatim>\<open>null\<close> and \<^verbatim>\<open>[]\<close>;
  \<^item> a run-time panic is the \<open>Inl\<close> of a sum;
  \<^item> what the Go library decides and the repository does not (the order in which
    \<^verbatim>\<open>sort.Slice\<close> leaves equal elements, the text \<^verbatim>\<open>Time.Format\<close> prints, the
    integer a float outside \<^verbatim>\<open>int64\<close> converts to) is a field of the record \<open>golib\<close>,
    a parameter of the functions.
\<close>

subsection \<open>Time\<close>

type_synonym Time = int
type_synonym Duration = int

definition minDuration :: Duration where
  "minDuration = - (2 ^ 63)"

definition maxDuration :: Duration where
  "maxDuration = 2 ^ 63 - 1"

definition Minute :: Duration where
  "Minute = 60000000000"

text \<open>\<^verbatim>\<open>int64\<close> arithmetic wraps around.\<close>

definition int64 :: "int \<Rightarrow> int" where
  "int64 x = (x + 2 ^ 63) mod 2 ^ 64 - 2 ^ 63"

definition in_int64 :: "int \<Rightarrow> bool" where
  "in_int64 x = (- (2 ^ 63) \<le> x \<and> x \<le> 2 ^ 63 - 1)"

text \<open>\<^verbatim>\<open>t.Before(u)\<close>.\<close>

definition Before :: "Time \<Rightarrow> Time \<Rightarrow> bool" where
  "Before t u = (t < u)"

text \<open>\<^verbatim>\<open>t.Sub(u)\<close>: the difference, or the largest (smallest) duration when the difference
  does not fit.\<close>

definition Sub :: "Time \<Rightarrow> Time \<Rightarrow> Duration" where
  "Sub t u = (if t - u > maxDuration then maxDuration
              else if t - u < minDuration then minDuration
              else t - u)"

text \<open>\<^verbatim>\<open>t.Add(d)\<close>.\<close>

definition Add :: "Time \<Rightarrow> Duration \<Rightarrow> Time" where
  "Add t d = t + d"

text \<open>\<^verbatim>\<open>d.Minutes()\<close>: whole minutes (division truncating towards zero) plus the rest as a
  fraction.\<close>

definition Minutes :: "Duration \<Rightarrow> real" where
  "Minutes d = (let mins = d sdiv Minute; nsec = d smod Minute
                in real_of_int mins + real_of_int nsec / (60 * 1000000000))"

subsection \<open>Floating point values that are not numbers\<close>

datatype fval = Finite real | PosInf | NegInf | NaN

text \<open>\<^verbatim>\<open>x / y\<close> on \<^verbatim>\<open>float64\<close>, the divisor being the conversion of an integer (so a
  zero divisor is \<open>+0\<close>).\<close>

definition fdiv :: "real \<Rightarrow> real \<Rightarrow> fval" where
  "fdiv x y = (if y \<noteq> 0 then Finite (x / y)
               else if 0 < x then PosInf
               else if x < 0 then NegInf
               else NaN)"

text \<open>\<^verbatim>\<open>math.Ceil\<close>.\<close>

fun Ceil :: "fval \<Rightarrow> fval" where
  "Ceil (Finite r) = Finite (of_int \<lceil>r\<rceil>)"
| "Ceil v = v"

text \<open>\<^verbatim>\<open>math.Round\<close>: to the nearest integer, halves away from zero.\<close>

definition Round :: "real \<Rightarrow> int" where
  "Round x = (if 0 \<le> x then \<lfloor>x + 1 / 2\<rfloor> else - \<lfloor>- x + 1 / 2\<rfloor>)"

text \<open>Truncation towards zero, the value of \<^verbatim>\<open>int(x)\<close> where it fits.\<close>

definition trunc :: "real \<Rightarrow> int" where
  "trunc r = (if 0 \<le> r then \<lfloor>r\<rfloor> else \<lceil>r\<rceil>)"

subsection \<open>Domain types\<close>

record BatteryStrategyParams =
  Area :: string
  MaxChargeHours :: real
  MaxDischargeHours :: real
  LastPriceCharged :: real
  Epsilon :: real
  Market :: string
  Currency :: string

record PriceSlot =
  Timestamp :: Time
  Price :: real

text \<open>The fields of the three output structs carry their JSON names.\<close>

record SlotJSON =
  timestamp :: string
  price :: real

record IntervalJSON =
  start :: string
  end' :: string
  avg_price :: real

record ScheduleJSON =
  area :: string
  last_price_charged :: real
  epsilon :: real
  resolution_minutes :: "int option"
  charge_slots :: "SlotJSON list option"
  discharge_slots :: "SlotJSON list option"
  charge_intervals :: "IntervalJSON list option"
  discharge_intervals :: "IntervalJSON list option"

datatype panic = IndexOutOfRange | SliceBoundsOutOfRange

subsection \<open>What the Go library decides\<close>

record golib =
  sort_Slice :: "(PriceSlot \<Rightarrow> PriceSlot \<Rightarrow> bool) \<Rightarrow> PriceSlot list \<Rightarrow> PriceSlot list"
  Format :: "Time \<Rightarrow> string"
  float_to_int :: "fval \<Rightarrow> int"

text \<open>\<^verbatim>\<open>int(v)\<close> for a \<^verbatim>\<open>float64\<close>: the truncation when it fits, and a value the
  implementation chooses otherwise.\<close>

definition to_int :: "golib \<Rightarrow> fval \<Rightarrow> int" where
  "to_int L v = (case v of
       Finite r \<Rightarrow> if in_int64 (trunc r) then trunc r else float_to_int L v
     | _ \<Rightarrow> float_to_int L v)"

text \<open>\<^verbatim>\<open>append(s, x)\<close> on a slice that may be \<^verbatim>\<open>nil\<close>.\<close>

definition append_slice :: "'a list option \<Rightarrow> 'a \<Rightarrow> 'a list option" where
  "append_slice s x = (case s of None \<Rightarrow> Some [x] | Some xs \<Rightarrow> Some (xs @ [x]))"

subsection \<open>inferResolutionMinutes\<close>

text \<open>The loop over \<^verbatim>\<open>i = 1 .. len(prices) - 1\<close> that collects the deltas.\<close>

fun deltas_loop :: "PriceSlot list \<Rightarrow> real list \<Rightarrow> real list" where
  "deltas_loop (p # q # rest) deltas =
     (let dt = Minutes (Sub (Timestamp q) (Timestamp p))
      in deltas_loop (q # rest) (deltas @ [dt]))"
| "deltas_loop _ deltas = deltas"

text \<open>\<^verbatim>\<open>sort.Float64s\<close> puts the deltas in increasing order; on real numbers there is one
  such list. The median of at least one delta lies between the smallest and the largest
  duration in minutes, so its rounding converts to \<^verbatim>\<open>int\<close> without loss.\<close>

definition inferResolutionMinutes :: "PriceSlot list \<Rightarrow> int" where
  "inferResolutionMinutes prices =
     (if length prices < 2 then 60
      else let deltas = sort (deltas_loop prices []);
               mid = length deltas div 2;
               median = (if length deltas mod 2 = 0
                         then (deltas ! (mid - 1) + deltas ! mid) / 2
                         else deltas ! mid)
           in Round median)"

subsection \<open>slotsForHours\<close>

definition slotsForHours :: "golib \<Rightarrow> real \<Rightarrow> int \<Rightarrow> int" where
  "slotsForHours L maxHours resolutionMinutes =
     (let totalMinutes = maxHours * 60
      in to_int L (Ceil (fdiv totalMinutes (real_of_int resolutionMinutes))))"

subsection \<open>groupConsecutiveSlots\<close>

text \<open>The first loop: \<open>prev\<close> is \<^verbatim>\<open>slots[i-1]\<close>, the list holds \<^verbatim>\<open>slots[i:]\<close>.\<close>

fun groups_loop ::
  "Duration \<Rightarrow> PriceSlot \<Rightarrow> PriceSlot list \<Rightarrow> PriceSlot list \<Rightarrow> PriceSlot list list
     \<Rightarrow> PriceSlot list list" where
  "groups_loop step prev [] group' groups = groups @ [group']"
| "groups_loop step prev (cur # rest) group' groups =
     (if Sub (Timestamp cur) (Timestamp prev) = step
      then groups_loop step cur rest (group' @ [cur]) groups
      else groups_loop step cur rest [cur] (groups @ [group']))"

text \<open>The inner loop that adds up the prices of a group.\<close>

fun sum_loop :: "PriceSlot list \<Rightarrow> real \<Rightarrow> real" where
  "sum_loop [] acc = acc"
| "sum_loop (s # rest) acc = sum_loop rest (acc + Price s)"

text \<open>The second loop, over the groups.\<close>

fun intervals_loop ::
  "golib \<Rightarrow> Duration \<Rightarrow> PriceSlot list list \<Rightarrow> IntervalJSON list option
     \<Rightarrow> IntervalJSON list option" where
  "intervals_loop L step [] intervals = intervals"
| "intervals_loop L step (g # rest) intervals =
     (case g of
        [] \<Rightarrow> intervals_loop L step rest intervals
      | g0 # _ \<Rightarrow>
          (let start_t = Timestamp g0;
               end_t = Add (Timestamp (last g)) step;
               acc = sum_loop g 0;
               avg = acc / real (length g)
           in intervals_loop L step rest
                (append_slice intervals
                   \<lparr>start = Format L start_t, end' = Format L end_t, avg_price = avg\<rparr>)))"

text \<open>\<^verbatim>\<open>sort.Slice\<close> sorts the slice of the caller in place, and the caller reads its
  slice again afterwards: the function gives back the slots as it leaves them, with the
  intervals. \<^verbatim>\<open>slots[0]\<close> panics on an empty slice; a sort in place keeps the length, so
  under the contract of \<^verbatim>\<open>sort.Slice\<close> that branch is not taken.\<close>

definition groupConsecutiveSlots ::
  "golib \<Rightarrow> PriceSlot list \<Rightarrow> int \<Rightarrow> panic + PriceSlot list \<times> IntervalJSON list option" where
  "groupConsecutiveSlots L slots resolutionMinutes =
     (if length slots = 0 then Inr (slots, None)
      else
        let sorted = sort_Slice L (\<lambda>a b. Before (Timestamp a) (Timestamp b)) slots;
            step = int64 (resolutionMinutes * Minute)
        in case sorted of
             [] \<Rightarrow> Inl IndexOutOfRange
           | s0 # rest \<Rightarrow>
               Inr (sorted, intervals_loop L step (groups_loop step s0 rest [s0] []) None))"

subsection \<open>BuildBatterySchedule\<close>

text \<open>The loop that keeps the slots that are not before \<open>now\<close>.\<close>

fun future_loop :: "Time \<Rightarrow> PriceSlot list \<Rightarrow> PriceSlot list \<Rightarrow> PriceSlot list" where
  "future_loop now [] future = future"
| "future_loop now (p # rest) future =
     (if \<not> Before (Timestamp p) now
      then future_loop now rest (future @ [p])
      else future_loop now rest future)"

text \<open>The discharge threshold, capped at 8 cents per kWh.\<close>

definition dischargeThreshold :: "BatteryStrategyParams \<Rightarrow> real" where
  "dischargeThreshold params =
     (let t = LastPriceCharged params + Epsilon params
      in if t > 8 then 8 else t)"

text \<open>The loop that collects the candidates of both sides.\<close>

fun candidates_loop ::
  "BatteryStrategyParams \<Rightarrow> real \<Rightarrow> PriceSlot list \<Rightarrow> PriceSlot list \<times> PriceSlot list
     \<Rightarrow> PriceSlot list \<times> PriceSlot list" where
  "candidates_loop params threshold [] (cc, dc) = (cc, dc)"
| "candidates_loop params threshold (s # rest) (cc, dc) =
     (let cc' = (if LastPriceCharged params - Price s \<ge> Epsilon params then cc @ [s] else cc);
          dc' = (if Price s \<ge> threshold then dc @ [s] else dc)
      in candidates_loop params threshold rest (cc', dc'))"

text \<open>\<^verbatim>\<open>if len(c) > max { c = c[:max] }\<close>: the slice expression panics on a negative
  bound.\<close>

definition truncate_to :: "PriceSlot list \<Rightarrow> int \<Rightarrow> panic + PriceSlot list" where
  "truncate_to c maxSlots =
     (if int (length c) > maxSlots
      then (if maxSlots < 0 then Inl SliceBoundsOutOfRange else Inr (take (nat maxSlots) c))
      else Inr c)"

text \<open>The closure \<^verbatim>\<open>toSlotJSON\<close>: \<^verbatim>\<open>make\<close> gives a slice that is not \<^verbatim>\<open>nil\<close>.\<close>

fun toSlotJSON_loop :: "golib \<Rightarrow> PriceSlot list \<Rightarrow> SlotJSON list \<Rightarrow> SlotJSON list" where
  "toSlotJSON_loop L [] out = out"
| "toSlotJSON_loop L (s # rest) out =
     toSlotJSON_loop L rest (out @ [\<lparr>timestamp = Format L (Timestamp s), price = Price s\<rparr>])"

definition toSlotJSON :: "golib \<Rightarrow> PriceSlot list \<Rightarrow> SlotJSON list option" where
  "toSlotJSON L slots = Some (toSlotJSON_loop L slots [])"

text \<open>The ranking of the candidates: cheapest first for charging, dearest first for
  discharging.\<close>

definition rankCharge :: "golib \<Rightarrow> PriceSlot list \<Rightarrow> PriceSlot list" where
  "rankCharge L cc = sort_Slice L (\<lambda>a b. Price a < Price b) cc"

definition rankDischarge :: "golib \<Rightarrow> PriceSlot list \<Rightarrow> PriceSlot list" where
  "rankDischarge L dc = sort_Slice L (\<lambda>a b. Price a > Price b) dc"

definition byTime :: "golib \<Rightarrow> PriceSlot list \<Rightarrow> PriceSlot list" where
  "byTime L c = sort_Slice L (\<lambda>a b. Before (Timestamp a) (Timestamp b)) c"

definition BuildBatterySchedule ::
  "golib \<Rightarrow> PriceSlot list \<Rightarrow> BatteryStrategyParams \<Rightarrow> Time \<Rightarrow> panic + ScheduleJSON" where
  "BuildBatterySchedule L prices params now =
     (let future = future_loop now prices []
      in if length future = 0
         then Inr \<lparr>area = Area params,
                   last_price_charged = LastPriceCharged params,
                   epsilon = Epsilon params,
                   resolution_minutes = None,
                   charge_slots = Some [],
                   discharge_slots = Some [],
                   charge_intervals = Some [],
                   discharge_intervals = Some []\<rparr>
         else
           let resolution = inferResolutionMinutes future;
               maxChargeSlots = slotsForHours L (MaxChargeHours params) resolution;
               maxDischargeSlots = slotsForHours L (MaxDischargeHours params) resolution;
               (cc, dc) = candidates_loop params (dischargeThreshold params) future ([], [])
           in case truncate_to (rankCharge L cc) maxChargeSlots of
                Inl e \<Rightarrow> Inl e
              | Inr chargeCandidates \<Rightarrow>
             (case truncate_to (rankDischarge L dc) maxDischargeSlots of
                Inl e \<Rightarrow> Inl e
              | Inr dischargeCandidates \<Rightarrow>
             (let chargeSorted = byTime L chargeCandidates;
                  dischargeSorted = byTime L dischargeCandidates
              in case groupConsecutiveSlots L chargeSorted resolution of
                   Inl e \<Rightarrow> Inl e
                 | Inr (chargeSlots, chargeIntervals) \<Rightarrow>
                (case groupConsecutiveSlots L dischargeSorted resolution of
                   Inl e \<Rightarrow> Inl e
                 | Inr (dischargeSlots, dischargeIntervals) \<Rightarrow>
                     Inr \<lparr>area = Area params,
                          last_price_charged = LastPriceCharged params,
                          epsilon = Epsilon params,
                          resolution_minutes = Some resolution,
                          charge_slots = toSlotJSON L chargeSlots,
                          discharge_slots = toSlotJSON L dischargeSlots,
                          charge_intervals = chargeIntervals,
                          discharge_intervals = dischargeIntervals\<rparr>))))"

subsection \<open>The contract of sort.Slice\<close>

text \<open>
  \<^verbatim>\<open>sort.Slice\<close> sorts in place, so it returns a permutation of its argument; for a
  \<open>lt\<close> that is a strict weak ordering no element is left before one that is less
  than it. The documentation of the function promises no more: "The sort is not
  guaranteed to be stable".
\<close>

definition strict_weak_order :: "('a \<Rightarrow> 'a \<Rightarrow> bool) \<Rightarrow> bool" where
  "strict_weak_order lt =
     ((\<forall>a b. lt a b \<longrightarrow> \<not> lt b a) \<and>
      (\<forall>a b c. lt a c \<longrightarrow> lt a b \<or> lt b c))"

definition sort_Slice_contract ::
  "((PriceSlot \<Rightarrow> PriceSlot \<Rightarrow> bool) \<Rightarrow> PriceSlot list \<Rightarrow> PriceSlot list) \<Rightarrow> bool" where
  "sort_Slice_contract srt =
     ((\<forall>lt xs. mset (srt lt xs) = mset xs) \<and>
      (\<forall>lt xs. strict_weak_order lt \<longrightarrow>
          sorted_wrt (\<lambda>a b. \<not> lt b a) (srt lt xs)))"

subsection \<open>Two libraries that keep the contract\<close>

text \<open>Insertion sort that keeps equal elements in their order (what \<^verbatim>\<open>sort.Slice\<close>
  runs on a slice of at most 12 elements), and one that reverses them.\<close>

fun insert_first :: "('a \<Rightarrow> 'a \<Rightarrow> bool) \<Rightarrow> 'a \<Rightarrow> 'a list \<Rightarrow> 'a list" where
  "insert_first lt x [] = [x]"
| "insert_first lt x (y # ys) =
     (if lt y x then y # insert_first lt x ys else x # y # ys)"

definition stable_sort :: "('a \<Rightarrow> 'a \<Rightarrow> bool) \<Rightarrow> 'a list \<Rightarrow> 'a list" where
  "stable_sort lt xs = foldr (insert_first lt) xs []"

fun insert_last :: "('a \<Rightarrow> 'a \<Rightarrow> bool) \<Rightarrow> 'a \<Rightarrow> 'a list \<Rightarrow> 'a list" where
  "insert_last lt x [] = [x]"
| "insert_last lt x (y # ys) =
     (if lt x y then x # y # ys else y # insert_last lt x ys)"

definition reversing_sort :: "('a \<Rightarrow> 'a \<Rightarrow> bool) \<Rightarrow> 'a list \<Rightarrow> 'a list" where
  "reversing_sort lt xs = foldr (insert_last lt) xs []"

text \<open>A formatter that prints the time of day of an instant as \<^verbatim>\<open>HH:MM\<close>.\<close>

definition digit :: "int \<Rightarrow> char" where
  "digit d = ''0123456789'' ! nat d"

definition hhmm :: "Time \<Rightarrow> string" where
  "hhmm t = (let h = (t div (60 * Minute)) mod 24; m = (t div Minute) mod 60
             in [digit (h div 10), digit (h mod 10), CHR '':'',
                 digit (m div 10), digit (m mod 10)])"

text \<open>Conversions of a float that does not fit: the smallest integer in every case
  (amd64), or the nearest integer and zero for a NaN (arm64, wasm with saturating
  conversions).\<close>

definition indefinite_int :: "fval \<Rightarrow> int" where
  "indefinite_int v = - (2 ^ 63)"

fun saturating_int :: "fval \<Rightarrow> int" where
  "saturating_int (Finite r) = (if r < 0 then - (2 ^ 63) else 2 ^ 63 - 1)"
| "saturating_int PosInf = 2 ^ 63 - 1"
| "saturating_int NegInf = - (2 ^ 63)"
| "saturating_int NaN = 0"

definition lib_amd64 :: golib where
  "lib_amd64 = \<lparr>sort_Slice = stable_sort, Format = hhmm, float_to_int = indefinite_int\<rparr>"

definition lib_wasm :: golib where
  "lib_wasm = \<lparr>sort_Slice = stable_sort, Format = hhmm, float_to_int = saturating_int\<rparr>"

definition lib_reversing :: golib where
  "lib_reversing =
     \<lparr>sort_Slice = reversing_sort, Format = hhmm, float_to_int = indefinite_int\<rparr>"

subsection \<open>Notions of the specification\<close>


text \<open>The statistical median: of the values in increasing order, the middle one, or the
  average of the two middle ones when their number is even.\<close>

definition statistical_median :: "real list \<Rightarrow> real" where
  "statistical_median xs =
     (let s = sort xs; n = length s
      in if even n then (s ! (n div 2 - 1) + s ! (n div 2)) / 2 else s ! (n div 2))"

text \<open>The interval that summarises a run of slots: from the timestamp of the first
  slot to the timestamp of the last slot plus one step, with the arithmetic mean of the
  prices.\<close>

definition interval_summary :: "golib \<Rightarrow> Duration \<Rightarrow> PriceSlot list \<Rightarrow> IntervalJSON" where
  "interval_summary L step g =
     \<lparr>start = Format L (Timestamp (hd g)),
      end' = Format L (Timestamp (last g) + step),
      avg_price = sum_list (map Price g) / real (length g)\<rparr>"

text \<open>The candidates of the two sides, as filters.\<close>

definition chargeCandidates :: "BatteryStrategyParams \<Rightarrow> PriceSlot list \<Rightarrow> PriceSlot list" where
  "chargeCandidates params future =
     filter (\<lambda>s. LastPriceCharged params - Price s \<ge> Epsilon params) future"

definition dischargeCandidates :: "BatteryStrategyParams \<Rightarrow> PriceSlot list \<Rightarrow> PriceSlot list" where
  "dischargeCandidates params future =
     filter (\<lambda>s. Price s \<ge> dischargeThreshold params) future"

text \<open>Parameters used in the examples.\<close>

definition params0 :: BatteryStrategyParams where
  "params0 = \<lparr>Area = ''LV'', MaxChargeHours = 3, MaxDischargeHours = 3,
               LastPriceCharged = 10, Epsilon = 5, Market = ''DayAhead'', Currency = ''EUR''\<rparr>"

text \<open>Two slots an hour apart, and their schedule with one hour of charging.\<close>

definition two_slots :: "PriceSlot list" where
  "two_slots = [\<lparr>Timestamp = 0, Price = 1\<rparr>, \<lparr>Timestamp = 60 * Minute, Price = 2\<rparr>]"

definition two_slots_schedule :: ScheduleJSON where
  "two_slots_schedule =
     \<lparr>area = ''LV'', last_price_charged = 10, epsilon = 5,
      resolution_minutes = Some 60,
      charge_slots = Some [\<lparr>timestamp = ''00:00'', price = 1\<rparr>],
      discharge_slots = Some [],
      charge_intervals = Some [\<lparr>start = ''00:00'', end' = ''01:00'', avg_price = 1\<rparr>],
      discharge_intervals = None\<rparr>"

text \<open>Slots at 00:00, 01:00, 02:00 and 05:00.\<close>

definition four_slots :: "PriceSlot list" where
  "four_slots = [\<lparr>Timestamp = 0, Price = 1\<rparr>, \<lparr>Timestamp = 60 * Minute, Price = 2\<rparr>,
                 \<lparr>Timestamp = 120 * Minute, Price = 3\<rparr>, \<lparr>Timestamp = 300 * Minute, Price = 4\<rparr>]"

section \<open>Properties\<close>

subsection \<open>The loops as list functions\<close>

lemmas eval_defs =
  BuildBatterySchedule_def inferResolutionMinutes_def slotsForHours_def
  groupConsecutiveSlots_def truncate_to_def toSlotJSON_def rankCharge_def rankDischarge_def
  byTime_def dischargeThreshold_def to_int_def fdiv_def trunc_def Round_def in_int64_def
  int64_def Minutes_def Sub_def Add_def Before_def Minute_def minDuration_def maxDuration_def
  append_slice_def signed_divide_int_def signed_modulo_int_def Let_def
  lib_amd64_def lib_wasm_def lib_reversing_def stable_sort_def reversing_sort_def
  hhmm_def digit_def indefinite_int_def

lemma future_loop_filter:
  "future_loop now prices future = future @ filter (\<lambda>p. now \<le> Timestamp p) prices"
  by (induction prices arbitrary: future) (auto simp: Before_def)

lemma candidates_loop_filter:
  "candidates_loop params threshold future (cc, dc) =
     (cc @ filter (\<lambda>s. LastPriceCharged params - Price s \<ge> Epsilon params) future,
      dc @ filter (\<lambda>s. Price s \<ge> threshold) future)"
  by (induction future arbitrary: cc dc) (auto simp: Let_def)

lemma toSlotJSON_loop_map:
  "toSlotJSON_loop L slots out =
     out @ map (\<lambda>s. \<lparr>timestamp = Format L (Timestamp s), price = Price s\<rparr>) slots"
  by (induction slots arbitrary: out) auto

lemma sum_loop_sum_list: "sum_loop g acc = acc + sum_list (map Price g)"
  by (induction g arbitrary: acc) auto


subsection \<open>The two sorts keep the contract\<close>


lemma mset_insert_first: "mset (insert_first lt x ys) = add_mset x (mset ys)"
  by (induction ys) auto


lemma mset_stable_sort: "mset (stable_sort lt xs) = mset xs"
  by (induction xs) (auto simp: stable_sort_def mset_insert_first)


lemma set_insert_first: "set (insert_first lt x ys) = insert x (set ys)"
  by (induction ys) auto


lemma sorted_insert_first:
  assumes "strict_weak_order lt" "sorted_wrt (\<lambda>a b. \<not> lt b a) ys"
  shows "sorted_wrt (\<lambda>a b. \<not> lt b a) (insert_first lt x ys)"
  using assms(2)
proof (induction ys)
  case Nil
  then show ?case by simp
next
  case (Cons y ys)
  show ?case
  proof (cases "lt y x")
    case True
    with Cons assms(1) show ?thesis
      by (auto simp: set_insert_first strict_weak_order_def)
  next
    case False
    have "\<not> lt z x" if "z \<in> set ys" for z
    proof
      assume "lt z x"
      with assms(1) have "lt z y \<or> lt y x" unfolding strict_weak_order_def by blast
      with False Cons.prems that show False by auto
    qed
    with False Cons.prems show ?thesis by auto
  qed
qed


lemma stable_sort_contract: "sort_Slice_contract stable_sort"
proof -
  have "sorted_wrt (\<lambda>a b. \<not> lt b a) (stable_sort lt xs)"
    if "strict_weak_order lt" for lt :: "PriceSlot \<Rightarrow> PriceSlot \<Rightarrow> bool" and xs
    using that by (induction xs) (auto simp: stable_sort_def intro: sorted_insert_first)
  then show ?thesis
    by (simp add: sort_Slice_contract_def mset_stable_sort)
qed


lemma swo_key_less: "strict_weak_order (\<lambda>a b. f a < (f b :: 'k :: linorder))"
  unfolding strict_weak_order_def by auto


subsection \<open>Candidate classification\<close>


subsection \<open>No future slot\<close>

text \<open>
  Claim C8. The filter keeps exactly the slots with \<open>timestamp \<ge> now\<close>; when every slot
  is before \<open>now\<close> (also when there is none) the result is a schedule, not a panic, with
  no resolution and four empty lists.
\<close>

theorem empty_future_schedule:
  "future_loop now prices [] = filter (\<lambda>p. now \<le> Timestamp p) prices \<and>
   ((\<forall>p \<in> set prices. Timestamp p < now) \<longrightarrow>
      BuildBatterySchedule L prices params now =
        Inr \<lparr>area = Area params,
             last_price_charged = LastPriceCharged params,
             epsilon = Epsilon params,
             resolution_minutes = None,
             charge_slots = Some [],
             discharge_slots = Some [],
             charge_intervals = Some [],
             discharge_intervals = Some []\<rparr>)"
proof (intro conjI impI)
  show "future_loop now prices [] = filter (\<lambda>p. now \<le> Timestamp p) prices"
    by (simp add: future_loop_filter)
next
  assume past: "\<forall>p \<in> set prices. Timestamp p < now"
  then have "filter (\<lambda>p. now \<le> Timestamp p) prices = []"
    by (auto simp: filter_empty_conv)
  then have "future_loop now prices [] = []"
    by (simp add: future_loop_filter)
  then show "BuildBatterySchedule L prices params now =
        Inr \<lparr>area = Area params,
             last_price_charged = LastPriceCharged params,
             epsilon = Epsilon params,
             resolution_minutes = None,
             charge_slots = Some [],
             discharge_slots = Some [],
             charge_intervals = Some [],
             discharge_intervals = Some []\<rparr>"
    by (simp add: BuildBatterySchedule_def)
qed

theorem empty_future_witness:
  "Timestamp \<lparr>Timestamp = 0, Price = 12\<rparr> < 5 \<and>
   BuildBatterySchedule lib_amd64 [\<lparr>Timestamp = 0, Price = 12\<rparr>] params0 5 =
     Inr \<lparr>area = ''LV'', last_price_charged = 10, epsilon = 5,
        resolution_minutes = None, charge_slots = Some [],
        discharge_slots = Some [], charge_intervals = Some [],
        discharge_intervals = Some []\<rparr>"
  using empty_future_schedule [of 5 "[\<lparr>Timestamp = 0, Price = 12\<rparr>]" lib_amd64 params0]
  by (simp add: params0_def)

subsection \<open>Identifiers carried into the schedule\<close>

text \<open>
  Claim C9, as the code has it. A schedule carries the area, the last price charged and
  epsilon of the parameters; it has no field for the market or the currency, and does not
  depend on them.
\<close>

theorem passthrough_area:
  "(BuildBatterySchedule L prices params now = Inr s \<longrightarrow>
      area s = Area params \<and> last_price_charged s = LastPriceCharged params \<and>
      epsilon s = Epsilon params) \<and>
   BuildBatterySchedule L prices (params\<lparr>Market := m, Currency := c\<rparr>) now =
     BuildBatterySchedule L prices params now"
proof (intro conjI impI)
  assume "BuildBatterySchedule L prices params now = Inr s"
  then show "area s = Area params"
    by (auto simp: BuildBatterySchedule_def Let_def split: if_splits prod.splits sum.splits)
next
  assume "BuildBatterySchedule L prices params now = Inr s"
  then show "last_price_charged s = LastPriceCharged params"
    by (auto simp: BuildBatterySchedule_def Let_def split: if_splits prod.splits sum.splits)
next
  assume "BuildBatterySchedule L prices params now = Inr s"
  then show "epsilon s = Epsilon params"
    by (auto simp: BuildBatterySchedule_def Let_def split: if_splits prod.splits sum.splits)
next
  show "BuildBatterySchedule L prices (params\<lparr>Market := m, Currency := c\<rparr>) now =
     BuildBatterySchedule L prices params now"
    by (simp add: BuildBatterySchedule_def candidates_loop_filter dischargeThreshold_def Let_def split: sum.splits)
qed

theorem passthrough_witness:
  "BuildBatterySchedule lib_amd64 [\<lparr>Timestamp = 0, Price = 12\<rparr>] params0 0 =
     Inr \<lparr>area = ''LV'', last_price_charged = 10, epsilon = 5,
        resolution_minutes = Some 60, charge_slots = Some [],
        discharge_slots = Some [\<lparr>timestamp = ''00:00'', price = 12\<rparr>],
        charge_intervals = None,
        discharge_intervals =
          Some [\<lparr>start = ''00:00'', end' = ''01:00'', avg_price = 12\<rparr>]\<rparr> \<and>
   area \<lparr>area = ''LV'', last_price_charged = 10, epsilon = 5,
        resolution_minutes = Some 60, charge_slots = Some [],
        discharge_slots = Some [\<lparr>timestamp = ''00:00'', price = 12\<rparr>],
        charge_intervals = None,
        discharge_intervals =
          Some [\<lparr>start = ''00:00'', end' = ''01:00'', avg_price = 12\<rparr>]\<rparr> = Area params0"
  using passthrough_area [of lib_amd64 "[\<lparr>Timestamp = 0, Price = 12\<rparr>]" params0 0]
  by (simp add: eval_defs params0_def)

text \<open>Two parameter records that differ in market and currency give the same
  schedule: neither identifier can be read off the output.\<close>

theorem market_currency_counterexample:
  "Market params0 \<noteq> Market (params0\<lparr>Market := ''Intraday'', Currency := ''SEK''\<rparr>) \<and>
   Currency params0 \<noteq> Currency (params0\<lparr>Market := ''Intraday'', Currency := ''SEK''\<rparr>) \<and>
   BuildBatterySchedule lib_amd64 [\<lparr>Timestamp = 0, Price = 12\<rparr>] params0 0 =
   BuildBatterySchedule lib_amd64 [\<lparr>Timestamp = 0, Price = 12\<rparr>]
     (params0\<lparr>Market := ''Intraday'', Currency := ''SEK''\<rparr>) 0"
  by (simp add: eval_defs params0_def)

subsection \<open>Facts about the library and the helper functions\<close>

lemma contract_mset: "sort_Slice_contract srt \<Longrightarrow> mset (srt lt xs) = mset xs"
  by (simp add: sort_Slice_contract_def)

lemma contract_length: "sort_Slice_contract srt \<Longrightarrow> length (srt lt xs) = length xs"
  using contract_mset [of srt lt xs] by (auto dest: mset_eq_length)

lemma contract_set: "sort_Slice_contract srt \<Longrightarrow> set (srt lt xs) = set xs"
  using contract_mset [of srt lt xs] by (auto dest: mset_eq_setD)

lemma contract_sorted:
  "sort_Slice_contract srt \<Longrightarrow> strict_weak_order lt \<Longrightarrow>
     sorted_wrt (\<lambda>a b. \<not> lt b a) (srt lt xs)"
  by (simp add: sort_Slice_contract_def)

lemma trunc_of_int: "trunc (of_int c) = c"
  by (simp add: trunc_def)

lemma slotsForHours_exact:
  assumes "res \<noteq> 0" "in_int64 \<lceil>h * 60 / real_of_int res\<rceil>"
  shows "slotsForHours L h res = \<lceil>h * 60 / real_of_int res\<rceil>"
  using assms by (simp add: slotsForHours_def fdiv_def to_int_def trunc_of_int)

lemma truncate_to_Inr:
  assumes "truncate_to c m = Inr c'"
  shows "int (length c') \<le> m" and "c' = take (nat m) c" and "0 \<le> m"
  using assms by (auto simp: truncate_to_def split: if_splits)

lemma truncate_to_total: "0 \<le> m \<Longrightarrow> truncate_to c m = Inr (take (nat m) c)"
  by (auto simp: truncate_to_def)

lemma groupConsecutiveSlots_total:
  assumes "sort_Slice_contract (sort_Slice L)"
  shows "\<exists>r. groupConsecutiveSlots L slots res = Inr r"
proof (cases "slots = []")
  case True
  then show ?thesis by (simp add: groupConsecutiveSlots_def)
next
  case False
  then have "sort_Slice L (\<lambda>a b. Before (Timestamp a) (Timestamp b)) slots \<noteq> []"
    using contract_length [OF assms, of "\<lambda>a b. Before (Timestamp a) (Timestamp b)" slots]
    by auto
  with False show ?thesis
    by (auto simp: groupConsecutiveSlots_def Let_def split: list.splits)
qed

lemma groupConsecutiveSlots_slots:
  assumes "sort_Slice_contract (sort_Slice L)"
    and "groupConsecutiveSlots L slots res = Inr (slots', intervals)"
  shows "mset slots' = mset slots"
proof (cases "slots = []")
  case True
  with assms(2) show ?thesis by (simp add: groupConsecutiveSlots_def)
next
  case False
  with assms(2) have "slots' = sort_Slice L (\<lambda>a b. Before (Timestamp a) (Timestamp b)) slots"
    by (auto simp: groupConsecutiveSlots_def Let_def split: list.splits)
  then show ?thesis by (simp add: contract_mset [OF assms(1)])
qed

lemma groupConsecutiveSlots_length:
  assumes "sort_Slice_contract (sort_Slice L)"
    and "groupConsecutiveSlots L (byTime L kept) res = Inr (slots', intervals)"
  shows "length slots' = length kept" and "mset slots' = mset kept"
proof -
  have "mset slots' = mset (byTime L kept)"
    by (rule groupConsecutiveSlots_slots [OF assms])
  then show "mset slots' = mset kept"
    by (simp add: byTime_def contract_mset [OF assms(1)])
  then show "length slots' = length kept"
    by (rule mset_eq_length)
qed

lemma toSlotJSON_map:
  "toSlotJSON L slots =
     Some (map (\<lambda>s. \<lparr>timestamp = Format L (Timestamp s), price = Price s\<rparr>) slots)"
  by (simp add: toSlotJSON_def toSlotJSON_loop_map)

lemma truncate_to_negative: "m < 0 \<Longrightarrow> truncate_to c m = Inl SliceBoundsOutOfRange"
  by (simp add: truncate_to_def)

lemma ceiling_minus_one: "\<lceil>- 1 :: real\<rceil> = - 1"
  using ceiling_of_int [of "- 1", where ?'a = real] by simp

text \<open>The builder on a future that is not empty, read off its definition.\<close>

lemma Build_cases:
  assumes "BuildBatterySchedule L prices params now = Inr s"
    and "future_loop now prices [] \<noteq> []"
  obtains kc kd cs ci ds di where
    "truncate_to (rankCharge L (chargeCandidates params (future_loop now prices [])))
       (slotsForHours L (MaxChargeHours params)
          (inferResolutionMinutes (future_loop now prices []))) = Inr kc"
    "truncate_to (rankDischarge L (dischargeCandidates params (future_loop now prices [])))
       (slotsForHours L (MaxDischargeHours params)
          (inferResolutionMinutes (future_loop now prices []))) = Inr kd"
    "groupConsecutiveSlots L (byTime L kc)
       (inferResolutionMinutes (future_loop now prices [])) = Inr (cs, ci)"
    "groupConsecutiveSlots L (byTime L kd)
       (inferResolutionMinutes (future_loop now prices [])) = Inr (ds, di)"
    "s = \<lparr>area = Area params,
          last_price_charged = LastPriceCharged params,
          epsilon = Epsilon params,
          resolution_minutes = Some (inferResolutionMinutes (future_loop now prices [])),
          charge_slots = toSlotJSON L cs,
          discharge_slots = toSlotJSON L ds,
          charge_intervals = ci,
          discharge_intervals = di\<rparr>"
  using assms
  by (auto simp: BuildBatterySchedule_def Let_def candidates_loop_filter chargeCandidates_def
      dischargeCandidates_def split: sum.splits prod.splits)

lemma Build_total:
  assumes "sort_Slice_contract (sort_Slice L)"
    and "0 \<le> slotsForHours L (MaxChargeHours params)
          (inferResolutionMinutes (future_loop now prices []))"
    and "0 \<le> slotsForHours L (MaxDischargeHours params)
          (inferResolutionMinutes (future_loop now prices []))"
  shows "\<exists>s. BuildBatterySchedule L prices params now = Inr s"
proof (cases "future_loop now prices [] = []")
  case True
  then show ?thesis by (simp add: BuildBatterySchedule_def)
next
  case False
  obtain ci where ci: "groupConsecutiveSlots L (byTime L (take (nat (slotsForHours L (MaxChargeHours params)
          (inferResolutionMinutes (future_loop now prices [])))) (rankCharge L (chargeCandidates params (future_loop now prices [])))))
       (inferResolutionMinutes (future_loop now prices [])) = Inr ci"
    using groupConsecutiveSlots_total [OF assms(1)] by blast
  obtain di where di: "groupConsecutiveSlots L (byTime L (take (nat (slotsForHours L (MaxDischargeHours params)
          (inferResolutionMinutes (future_loop now prices [])))) (rankDischarge L (dischargeCandidates params (future_loop now prices [])))))
       (inferResolutionMinutes (future_loop now prices [])) = Inr di"
    using groupConsecutiveSlots_total [OF assms(1)] by blast
  from False ci di assms(2,3) show ?thesis
    by (simp add: BuildBatterySchedule_def Let_def candidates_loop_filter chargeCandidates_def
      dischargeCandidates_def truncate_to_total split: prod.splits)
qed

lemma two_slots_build:
  "BuildBatterySchedule lib_amd64 two_slots (params0\<lparr>MaxChargeHours := 1\<rparr>) 0 =
     Inr two_slots_schedule"
  by (simp add: eval_defs params0_def two_slots_def two_slots_schedule_def)

lemma two_slots_future: "future_loop 0 two_slots [] = two_slots"
  by (simp add: two_slots_def Before_def Minute_def)

lemma two_slots_resolution: "inferResolutionMinutes two_slots = 60"
  by (simp add: eval_defs two_slots_def)

subsection \<open>The hour budgets\<close>

text \<open>
  Claim C4. When the future is not empty and the budget formula
  \<open>ceil (maxHours * 60 / resolutionMinutes)\<close> denotes an integer of the machine (the inferred
  resolution is not 0 and the ceiling fits in 64 bits), every schedule that is returned has
  at most that many charge slots, and likewise discharge slots. With hours that are not
  negative and a positive resolution a schedule is returned.
\<close>

theorem budget_respected:
  assumes "sort_Slice_contract (sort_Slice L)"
    and "future_loop now prices [] \<noteq> []"
    and "inferResolutionMinutes (future_loop now prices []) \<noteq> 0"
    and "in_int64 \<lceil>MaxChargeHours params * 60 /
           real_of_int (inferResolutionMinutes (future_loop now prices []))\<rceil>"
    and "in_int64 \<lceil>MaxDischargeHours params * 60 /
           real_of_int (inferResolutionMinutes (future_loop now prices []))\<rceil>"
  shows "(\<forall>s. BuildBatterySchedule L prices params now = Inr s \<longrightarrow>
            (\<exists>cs ds. charge_slots s = Some cs \<and> discharge_slots s = Some ds \<and>
               int (length cs) \<le> \<lceil>MaxChargeHours params * 60 /
                  real_of_int (inferResolutionMinutes (future_loop now prices []))\<rceil> \<and>
               int (length ds) \<le> \<lceil>MaxDischargeHours params * 60 /
                  real_of_int (inferResolutionMinutes (future_loop now prices []))\<rceil>)) \<and>
         (0 \<le> MaxChargeHours params \<and> 0 \<le> MaxDischargeHours params \<and>
          0 < inferResolutionMinutes (future_loop now prices []) \<longrightarrow>
            (\<exists>s. BuildBatterySchedule L prices params now = Inr s))"
proof (intro conjI allI impI)
  fix s
  assume ret: "BuildBatterySchedule L prices params now = Inr s"
  from ret assms(2) obtain kc kd cs ci ds di where
    kc: "truncate_to (rankCharge L (chargeCandidates params (future_loop now prices [])))
       (slotsForHours L (MaxChargeHours params)
          (inferResolutionMinutes (future_loop now prices []))) = Inr kc" and
    kd: "truncate_to (rankDischarge L (dischargeCandidates params (future_loop now prices [])))
       (slotsForHours L (MaxDischargeHours params)
          (inferResolutionMinutes (future_loop now prices []))) = Inr kd" and
    gc: "groupConsecutiveSlots L (byTime L kc)
       (inferResolutionMinutes (future_loop now prices [])) = Inr (cs, ci)" and
    gd: "groupConsecutiveSlots L (byTime L kd)
       (inferResolutionMinutes (future_loop now prices [])) = Inr (ds, di)" and
    s: "s = \<lparr>area = Area params,
          last_price_charged = LastPriceCharged params,
          epsilon = Epsilon params,
          resolution_minutes = Some (inferResolutionMinutes (future_loop now prices [])),
          charge_slots = toSlotJSON L cs,
          discharge_slots = toSlotJSON L ds,
          charge_intervals = ci,
          discharge_intervals = di\<rparr>"
    by (rule Build_cases)
  have "int (length kc) \<le> \<lceil>MaxChargeHours params * 60 /
                  real_of_int (inferResolutionMinutes (future_loop now prices []))\<rceil>"
    using truncate_to_Inr(1) [OF kc] slotsForHours_exact [OF assms(3,4)] by simp
  moreover have "int (length kd) \<le> \<lceil>MaxDischargeHours params * 60 /
                  real_of_int (inferResolutionMinutes (future_loop now prices []))\<rceil>"
    using truncate_to_Inr(1) [OF kd] slotsForHours_exact [OF assms(3,5)] by simp
  ultimately show "\<exists>cs ds. charge_slots s = Some cs \<and> discharge_slots s = Some ds \<and>
               int (length cs) \<le> \<lceil>MaxChargeHours params * 60 /
                  real_of_int (inferResolutionMinutes (future_loop now prices []))\<rceil> \<and>
               int (length ds) \<le> \<lceil>MaxDischargeHours params * 60 /
                  real_of_int (inferResolutionMinutes (future_loop now prices []))\<rceil>"
    by (simp add: s toSlotJSON_map groupConsecutiveSlots_length(1) [OF assms(1) gc]
        groupConsecutiveSlots_length(1) [OF assms(1) gd])
next
  assume pos: "0 \<le> MaxChargeHours params \<and> 0 \<le> MaxDischargeHours params \<and>
          0 < inferResolutionMinutes (future_loop now prices [])"
  then have "0 \<le> MaxChargeHours params * 60 /
           real_of_int (inferResolutionMinutes (future_loop now prices []))"
    and "0 \<le> MaxDischargeHours params * 60 /
           real_of_int (inferResolutionMinutes (future_loop now prices []))"
    by simp_all
  then have "0 \<le> \<lceil>MaxChargeHours params * 60 /
           real_of_int (inferResolutionMinutes (future_loop now prices []))\<rceil>"
    and "0 \<le> \<lceil>MaxDischargeHours params * 60 /
           real_of_int (inferResolutionMinutes (future_loop now prices []))\<rceil>"
    by (simp_all add: ceiling_le_iff le_ceiling_iff)
  then show "\<exists>s. BuildBatterySchedule L prices params now = Inr s"
    using Build_total [OF assms(1), of params now prices]
      slotsForHours_exact [OF assms(3,4)] slotsForHours_exact [OF assms(3,5)]
    by simp
qed

theorem budget_respected_witness:
  "sort_Slice_contract (sort_Slice lib_amd64) \<and>
   future_loop 0 two_slots [] \<noteq> [] \<and>
   inferResolutionMinutes (future_loop 0 two_slots []) \<noteq> 0 \<and>
   in_int64 \<lceil>MaxChargeHours (params0\<lparr>MaxChargeHours := 1\<rparr>) * 60 /
      real_of_int (inferResolutionMinutes (future_loop 0 two_slots []))\<rceil> \<and>
   in_int64 \<lceil>MaxDischargeHours (params0\<lparr>MaxChargeHours := 1\<rparr>) * 60 /
      real_of_int (inferResolutionMinutes (future_loop 0 two_slots []))\<rceil> \<and>
   BuildBatterySchedule lib_amd64 two_slots (params0\<lparr>MaxChargeHours := 1\<rparr>) 0 =
     Inr two_slots_schedule \<and>
   (\<exists>cs ds. charge_slots two_slots_schedule = Some cs \<and>
      discharge_slots two_slots_schedule = Some ds \<and>
      int (length cs) \<le> \<lceil>MaxChargeHours (params0\<lparr>MaxChargeHours := 1\<rparr>) * 60 /
        real_of_int (inferResolutionMinutes (future_loop 0 two_slots []))\<rceil> \<and>
      int (length ds) \<le> \<lceil>MaxDischargeHours (params0\<lparr>MaxChargeHours := 1\<rparr>) * 60 /
        real_of_int (inferResolutionMinutes (future_loop 0 two_slots []))\<rceil>)"
proof -
  have c: "sort_Slice_contract (sort_Slice lib_amd64)"
    by (simp add: lib_amd64_def stable_sort_contract)
  have f: "future_loop 0 two_slots [] \<noteq> []"
    by (simp add: two_slots_future) (simp add: two_slots_def)
  have r: "inferResolutionMinutes (future_loop 0 two_slots []) \<noteq> 0"
    by (simp add: two_slots_future two_slots_resolution)
  have i1: "in_int64 \<lceil>MaxChargeHours (params0\<lparr>MaxChargeHours := 1\<rparr>) * 60 /
      real_of_int (inferResolutionMinutes (future_loop 0 two_slots []))\<rceil>"
    by (simp add: two_slots_future two_slots_resolution params0_def in_int64_def)
  have i2: "in_int64 \<lceil>MaxDischargeHours (params0\<lparr>MaxChargeHours := 1\<rparr>) * 60 /
      real_of_int (inferResolutionMinutes (future_loop 0 two_slots []))\<rceil>"
    by (simp add: two_slots_future two_slots_resolution params0_def in_int64_def)
  from budget_respected [OF c f r i1 i2] two_slots_build c f r i1 i2
  show ?thesis by blast
qed

subsection \<open>Negative budgets\<close>

text \<open>
  Claim C6, evaluated at a failing input. One slot at \<open>now\<close> and \<open>maxChargeHours = -1\<close>: the
  resolution is 60, the slot budget is \<open>ceil (-60 / 60) = -1\<close>, the length of the candidate
  list exceeds it, and the slice expression \<^verbatim>\<open>chargeCandidates[:-1]\<close> panics, whatever the
  library does.
\<close>

theorem negative_budget_panics:
  "BuildBatterySchedule L [\<lparr>Timestamp = 0, Price = 1\<rparr>] (params0\<lparr>MaxChargeHours := - 1\<rparr>) 0 =
     Inl SliceBoundsOutOfRange"
proof -
  have "slotsForHours L (- 1) 60 = - 1"
    by (simp add: slotsForHours_def fdiv_def to_int_def trunc_def in_int64_def ceiling_minus_one)
  then show ?thesis
    by (simp add: BuildBatterySchedule_def inferResolutionMinutes_def Before_def params0_def
        truncate_to_negative Let_def split: prod.splits)
qed

subsection \<open>A side without candidates\<close>

text \<open>
  Claim C7, evaluated at a failing input. A single future slot priced 12 with
  \<open>lastPriceCharged = 10\<close> and \<open>epsilon = 5\<close> is no charge candidate: the charge slots are an
  empty list, but the charge intervals are \<^verbatim>\<open>nil\<close>, which \<^verbatim>\<open>encoding/json\<close> prints as
  \<^verbatim>\<open>null\<close>.
\<close>

theorem nil_intervals_without_candidates:
  "BuildBatterySchedule lib_amd64 [\<lparr>Timestamp = 0, Price = 12\<rparr>] params0 0 =
     Inr \<lparr>area = ''LV'', last_price_charged = 10, epsilon = 5,
        resolution_minutes = Some 60, charge_slots = Some [],
        discharge_slots = Some [\<lparr>timestamp = ''00:00'', price = 12\<rparr>],
        charge_intervals = None,
        discharge_intervals =
          Some [\<lparr>start = ''00:00'', end' = ''01:00'', avg_price = 12\<rparr>]\<rparr>"
  by (simp add: eval_defs params0_def)

subsection \<open>The inferred resolution\<close>

lemma Minutes_exact: "Minutes d = real_of_int d / 60000000000"
proof -
  have "d sdiv Minute * Minute + d smod Minute = d"
    by (rule sdiv_mult_smod_eq)
  then have "real_of_int (d sdiv Minute) * real_of_int Minute + real_of_int (d smod Minute)
      = real_of_int d"
    by (metis of_int_add of_int_mult)
  then show ?thesis
    by (simp add: Minutes_def Let_def Minute_def field_simps)
qed


lemma deltas_loop_map:
  "deltas_loop prices deltas =
     deltas @ map (\<lambda>(a, b). Minutes (Sub (Timestamp b) (Timestamp a))) (zip prices (tl prices))"
  by (induction prices deltas rule: deltas_loop.induct) (simp_all add: Let_def)

lemma length_deltas: "length (deltas_loop prices []) = length prices - 1"
  by (simp add: deltas_loop_map)

lemma infer_median:
  "2 \<le> length prices \<Longrightarrow>
     inferResolutionMinutes prices = Round (statistical_median (deltas_loop prices []))"
  by (simp add: inferResolutionMinutes_def statistical_median_def Let_def even_iff_mod_2_eq_zero)

lemma median_bounds:
  assumes "xs \<noteq> []" and "\<forall>x \<in> set xs. lo \<le> x \<and> x \<le> hi"
  shows "lo \<le> statistical_median xs \<and> statistical_median xs \<le> hi"
proof -
  let ?s = "sort xs" and ?n = "length xs"
  have n: "0 < ?n" using assms(1) by simp
  have mem: "lo \<le> ?s ! i \<and> ?s ! i \<le> hi" if "i < ?n" for i
  proof -
    have "?s ! i \<in> set ?s" using that by (intro nth_mem) simp
    with assms(2) show ?thesis by simp
  qed
  have m: "?n div 2 < ?n" using n by simp
  show ?thesis
  proof (cases "even ?n")
    case True
    have "?n div 2 - 1 < ?n" using n by (simp add: less_imp_diff_less)
    from mem [OF this] mem [OF m] True show ?thesis
      by (simp add: statistical_median_def Let_def)
  next
    case False
    with mem [OF m] show ?thesis
      by (simp add: statistical_median_def Let_def)
  qed
qed

lemma successively_zip_tl:
  "successively P xs \<Longrightarrow> (a, b) \<in> set (zip xs (tl xs)) \<Longrightarrow> P a b"
  by (induction P xs rule: successively.induct) auto



lemma Round_ge_one: "1 \<le> x \<Longrightarrow> 1 \<le> Round x"
  by (simp add: Round_def le_floor_iff)

lemma Sub_ge: "0 \<le> d \<Longrightarrow> d \<le> maxDuration \<Longrightarrow> t + d \<le> u \<Longrightarrow> d \<le> Sub u t"
  by (simp add: Sub_def minDuration_def maxDuration_def)

text \<open>
  Claim C10, as the code has it. A schedule returned for a future that is not empty carries
  the inferred resolution, never \<^verbatim>\<open>nil\<close>; the resolution is at least 1 when each future
  slot is at least a minute after the one before it.
\<close>

theorem resolution_present:
  assumes "BuildBatterySchedule L prices params now = Inr s"
    and "future_loop now prices [] \<noteq> []"
  shows "resolution_minutes s = Some (inferResolutionMinutes (future_loop now prices [])) \<and>
         (successively (\<lambda>a b. Timestamp a + Minute \<le> Timestamp b) (future_loop now prices [])
            \<longrightarrow> 1 \<le> inferResolutionMinutes (future_loop now prices []))"
proof (intro conjI impI)
  show "resolution_minutes s = Some (inferResolutionMinutes (future_loop now prices []))"
    using assms by (auto elim: Build_cases)
next
  let ?f = "future_loop now prices []"
  assume gaps: "successively (\<lambda>a b. Timestamp a + Minute \<le> Timestamp b) ?f"
  show "1 \<le> inferResolutionMinutes ?f"
  proof (cases "length ?f < 2")
    case True
    then show ?thesis by (simp add: inferResolutionMinutes_def)
  next
    case False
    then have len: "2 \<le> length ?f" by simp
    then have "length (deltas_loop ?f []) \<noteq> 0"
      by (simp add: length_deltas)
    then have ne: "deltas_loop ?f [] \<noteq> []"
      by auto
    have "1 \<le> x" if "x \<in> set (deltas_loop ?f [])" for x
    proof -
      from that obtain a b where ab: "(a, b) \<in> set (zip ?f (tl ?f))"
        and x: "x = Minutes (Sub (Timestamp b) (Timestamp a))"
        by (auto simp: deltas_loop_map)
      from successively_zip_tl [OF gaps ab] have "Timestamp a + Minute \<le> Timestamp b" .
      then have "Minute \<le> Sub (Timestamp b) (Timestamp a)"
        by (intro Sub_ge) (simp_all add: Minute_def maxDuration_def)
      then show ?thesis
        by (simp add: x Minutes_exact Minute_def)
    qed
    then have "\<forall>x \<in> set (deltas_loop ?f []). 1 \<le> x \<and> x \<le> Max (set (deltas_loop ?f []))"
      by simp
    from median_bounds [OF ne this] have "1 \<le> statistical_median (deltas_loop ?f [])" by simp
    then show ?thesis
      by (simp add: infer_median [OF len] Round_ge_one)
  qed
qed

theorem resolution_present_witness:
  "BuildBatterySchedule lib_amd64 two_slots (params0\<lparr>MaxChargeHours := 1\<rparr>) 0 =
     Inr two_slots_schedule \<and>
   future_loop 0 two_slots [] \<noteq> [] \<and>
   resolution_minutes two_slots_schedule =
     Some (inferResolutionMinutes (future_loop 0 two_slots [])) \<and>
   successively (\<lambda>a b. Timestamp a + Minute \<le> Timestamp b) (future_loop 0 two_slots []) \<and>
   1 \<le> inferResolutionMinutes (future_loop 0 two_slots [])"
proof -
  have f: "future_loop 0 two_slots [] \<noteq> []"
    by (simp add: two_slots_future) (simp add: two_slots_def)
  have g: "successively (\<lambda>a b. Timestamp a + Minute \<le> Timestamp b) (future_loop 0 two_slots [])"
    by (simp add: two_slots_future two_slots_def Minute_def)
  from resolution_present [OF two_slots_build f] two_slots_build f g
  show ?thesis by blast
qed

text \<open>Two future slots with the same timestamp: the inferred resolution is 0, and where
  the conversion of a float that does not fit saturates, the schedule is returned with
  it.\<close>

theorem zero_resolution_counterexample:
  "inferResolutionMinutes [\<lparr>Timestamp = 0, Price = 1\<rparr>, \<lparr>Timestamp = 0, Price = 9\<rparr>] = 0 \<and>
   BuildBatterySchedule lib_wasm [\<lparr>Timestamp = 0, Price = 1\<rparr>, \<lparr>Timestamp = 0, Price = 9\<rparr>]
       params0 0 =
     Inr \<lparr>area = ''LV'', last_price_charged = 10, epsilon = 5,
        resolution_minutes = Some 0,
        charge_slots = Some [\<lparr>timestamp = ''00:00'', price = 1\<rparr>],
        discharge_slots = Some [\<lparr>timestamp = ''00:00'', price = 9\<rparr>],
        charge_intervals =
          Some [\<lparr>start = ''00:00'', end' = ''00:00'', avg_price = 1\<rparr>],
        discharge_intervals =
          Some [\<lparr>start = ''00:00'', end' = ''00:00'', avg_price = 9\<rparr>]\<rparr>"
  by (simp add: eval_defs params0_def)

subsection \<open>Resolution inference\<close>







subsection \<open>Ranking and truncation\<close>








subsection \<open>Grouping into intervals\<close>

lemma int64_in_range: "in_int64 (int64 x)"
proof -
  have "0 \<le> (x + 2 ^ 63) mod 2 ^ 64" "(x + 2 ^ 63) mod 2 ^ 64 < (2 ^ 64 :: int)"
    by simp_all
  then show ?thesis by (simp add: int64_def in_int64_def)
qed

lemma int64_id: "in_int64 x \<Longrightarrow> int64 x = x"
  by (simp add: int64_def in_int64_def)

lemma step_even: "even (int64 (res * Minute))"
proof -
  have "even (res * Minute + 2 ^ 63)" by (simp add: Minute_def)
  then have "even ((res * Minute + 2 ^ 63) mod 2 ^ 64)"
    by (simp add: dvd_mod_iff)
  then show ?thesis by (simp add: int64_def)
qed

lemma step_not_max: "int64 (res * Minute) \<noteq> maxDuration"
proof
  assume "int64 (res * Minute) = maxDuration"
  with step_even [of res] have "even maxDuration" by simp
  then show False by (simp add: maxDuration_def)
qed

lemma Sub_eq_step_iff:
  assumes "ta \<le> tb" "in_int64 st" "st \<noteq> maxDuration"
  shows "Sub tb ta = st \<longleftrightarrow> tb = ta + st"
  using assms by (auto simp: Sub_def in_int64_def maxDuration_def minDuration_def)

lemma intervals_loop_map:
  assumes "[] \<notin> set gs"
  shows "intervals_loop L step gs acc =
     (if gs = [] then acc
      else Some ((case acc of None \<Rightarrow> [] | Some xs \<Rightarrow> xs) @ map (interval_summary L step) gs))"
  using assms
proof (induction gs arbitrary: acc)
  case Nil
  then show ?case by simp
next
  case (Cons g gs)
  then obtain g0 g' where g: "g = g0 # g'" by (cases g) auto
  from Cons.prems have "[] \<notin> set gs" by simp
  note IH = Cons.IH [OF this]
  show ?case
    by (simp add: g IH Let_def append_slice_def interval_summary_def sum_loop_sum_list Add_def
        split: option.splits)
qed

text \<open>The first loop cuts the slots that follow the current group into maximal runs; no
  step is the largest duration, so on ascending slots the test of the loop is the equation
  between the timestamps.\<close>

lemma groups_loop_runs:
  assumes st: "in_int64 step" "step \<noteq> maxDuration"
    and "grp \<noteq> []" "last grp = prev"
    and "successively (\<lambda>a b. Timestamp b = Timestamp a + step) grp"
    and "sorted_wrt (\<lambda>a b. Timestamp a \<le> Timestamp b) (grp @ rest)"
  shows "\<exists>gs tl'. groups_loop step prev rest grp groups = groups @ gs \<and>
           hd gs = grp @ tl' \<and> gs \<noteq> [] \<and> concat gs = grp @ rest \<and> [] \<notin> set gs \<and>
           (\<forall>g \<in> set gs. successively (\<lambda>a b. Timestamp b = Timestamp a + step) g) \<and>
           successively (\<lambda>g h. Timestamp (hd h) \<noteq> Timestamp (last g) + step) gs"
  using assms(3-)
proof (induction rest arbitrary: prev grp groups)
  case Nil
  show ?case
    by (rule exI [of _ "[grp]"], rule exI [of _ "[]"]) (use Nil in simp)
next
  case (Cons cur rest)
  have "prev \<in> set grp" using Cons.prems(1,2) last_in_set by blast
  with Cons.prems(4) have le: "Timestamp prev \<le> Timestamp cur"
    by (auto simp: sorted_wrt_append)
  note test = Sub_eq_step_iff [OF le st]
  show ?case
  proof (cases "Timestamp cur = Timestamp prev + step")
    case True
    have 1: "grp @ [cur] \<noteq> []" and 2: "last (grp @ [cur]) = cur" by simp_all
    have 3: "successively (\<lambda>a b. Timestamp b = Timestamp a + step) (grp @ [cur])"
      using Cons.prems(2,3) True by (simp add: successively_append_iff)
    have 4: "sorted_wrt (\<lambda>a b. Timestamp a \<le> Timestamp b) ((grp @ [cur]) @ rest)"
      using Cons.prems(4) by simp
    from Cons.IH [OF 1 2 3 4, of groups] obtain gs tl' where
      "groups_loop step cur rest (grp @ [cur]) groups = groups @ gs"
      "hd gs = (grp @ [cur]) @ tl'" "gs \<noteq> []" "concat gs = (grp @ [cur]) @ rest"
      "[] \<notin> set gs"
      "\<forall>g \<in> set gs. successively (\<lambda>a b. Timestamp b = Timestamp a + step) g"
      "successively (\<lambda>g h. Timestamp (hd h) \<noteq> Timestamp (last g) + step) gs"
      by blast
    then show ?thesis
      using True test by (intro exI [of _ gs] exI [of _ "cur # tl'"]) simp
  next
    case False
    have 1: "[cur] \<noteq> []" and 2: "last [cur] = cur" by simp_all
    have 3: "successively (\<lambda>a b. Timestamp b = Timestamp a + step) [cur]" by simp
    have 4: "sorted_wrt (\<lambda>a b. Timestamp a \<le> Timestamp b) ([cur] @ rest)"
      using Cons.prems(4) by (simp add: sorted_wrt_append)
    from Cons.IH [OF 1 2 3 4, of "groups @ [grp]"] obtain gs tl' where gs:
      "groups_loop step cur rest [cur] (groups @ [grp]) = (groups @ [grp]) @ gs"
      "hd gs = [cur] @ tl'" "gs \<noteq> []" "concat gs = [cur] @ rest"
      "[] \<notin> set gs"
      "\<forall>g \<in> set gs. successively (\<lambda>a b. Timestamp b = Timestamp a + step) g"
      "successively (\<lambda>g h. Timestamp (hd h) \<noteq> Timestamp (last g) + step) gs"
      by blast
    have "successively (\<lambda>g h. Timestamp (hd h) \<noteq> Timestamp (last g) + step) (grp # gs)"
      using gs(2,3,7) False Cons.prems(2) by (simp add: successively_Cons)
    then show ?thesis
      using False test gs Cons.prems(1,3)
      by (intro exI [of _ "grp # gs"] exI [of _ "[]"]) simp
  qed
qed

lemma sorted_perm_unique:
  fixes f :: "'a \<Rightarrow> 'k :: linorder"
  assumes m: "mset ys = mset xs"
    and sx: "sorted_wrt (\<lambda>a b. f a < f b) xs"
    and sy: "sorted_wrt (\<lambda>a b. \<not> f b < f a) ys"
  shows "ys = xs"
proof -
  have strict: "sorted_wrt (<) (map f xs)" using sx by (simp add: sorted_wrt_map)
  then have 1: "sorted (map f xs)" and d: "distinct (map f xs)"
    by (simp_all add: strict_sorted_iff)
  have 2: "sorted (map f ys)" using sy by (simp add: sorted_map not_less)
  have "mset (map f ys) = mset (map f xs)" using m by simp
  from properties_for_sort [OF this 2] sorted_sort_id [OF 1]
  have eq: "map f xs = map f ys" by simp
  have "set ys = set xs" using m by (rule mset_eq_setD)
  moreover have "inj_on f (set xs)" using d by (simp add: distinct_map)
  ultimately have "inj_on f (set xs \<union> set ys)" by simp
  from inj_on_map_eq_map [OF this] eq show ?thesis by simp
qed

lemma grouping_runs:
  assumes "sort_Slice_contract (sort_Slice L)"
  shows "\<exists>gs. concat gs = byTime L slots \<and> [] \<notin> set gs \<and>
          (\<forall>g \<in> set gs.
             successively (\<lambda>a b. Timestamp b = Timestamp a + int64 (res * Minute)) g) \<and>
          successively
            (\<lambda>g h. Timestamp (hd h) \<noteq> Timestamp (last g) + int64 (res * Minute)) gs \<and>
          groupConsecutiveSlots L slots res =
            Inr (byTime L slots,
                 if slots = [] then None
                 else Some (map (interval_summary L (int64 (res * Minute))) gs)) \<and>
          (sorted_wrt (\<lambda>a b. Timestamp a < Timestamp b) slots \<longrightarrow> byTime L slots = slots) \<and>
          (in_int64 (res * Minute) \<longrightarrow> int64 (res * Minute) = res * Minute)"
proof -
  let ?step = "int64 (res * Minute)"
  let ?sorted = "byTime L slots"
  have swo: "strict_weak_order (\<lambda>a b. Before (Timestamp a) (Timestamp b))"
    using swo_key_less [of Timestamp] by (simp add: Before_def)
  have m: "mset ?sorted = mset slots"
    unfolding byTime_def by (rule contract_mset [OF assms])
  have asc: "sorted_wrt (\<lambda>a b. \<not> Timestamp b < Timestamp a) ?sorted"
    using contract_sorted [OF assms swo, of slots] by (simp add: byTime_def Before_def)
  have uniq: "sorted_wrt (\<lambda>a b. Timestamp a < Timestamp b) slots \<longrightarrow> ?sorted = slots"
    using sorted_perm_unique [OF m _ asc] by blast
  have wrap: "in_int64 (res * Minute) \<longrightarrow> ?step = res * Minute"
    by (simp add: int64_id)
  show ?thesis
  proof (cases "slots = []")
    case True
    then have "?sorted = []" using m by simp
    with True uniq wrap show ?thesis
      by (intro exI [of _ "[]"]) (simp add: groupConsecutiveSlots_def)
  next
    case False
    then have "?sorted \<noteq> []" using m by auto
    then obtain s0 rest where sr: "?sorted = s0 # rest" by (cases ?sorted) auto
    have asc': "sorted_wrt (\<lambda>a b. Timestamp a \<le> Timestamp b) ([s0] @ rest)"
      using asc by (simp add: sr not_less)
    from groups_loop_runs [OF int64_in_range step_not_max _ _ _ asc', of s0 res "[]"]
    obtain gs tl' where gs:
      "groups_loop ?step s0 rest [s0] [] = [] @ gs"
      "gs \<noteq> []" "concat gs = [s0] @ rest" "[] \<notin> set gs"
      "\<forall>g \<in> set gs. successively (\<lambda>a b. Timestamp b = Timestamp a + ?step) g"
      "successively (\<lambda>g h. Timestamp (hd h) \<noteq> Timestamp (last g) + ?step) gs"
      by auto
    have "groupConsecutiveSlots L slots res =
            Inr (?sorted, Some (map (interval_summary L ?step) gs))"
      using False sr gs(1,2) intervals_loop_map [OF gs(4), of L ?step None]
      by (simp add: groupConsecutiveSlots_def byTime_def Let_def)
    with False gs sr uniq wrap show ?thesis
      by (intro exI [of _ gs]) simp
  qed
qed

lemma byTime_strict:
  assumes "sort_Slice_contract (sort_Slice (L :: golib))"
    and "sorted_wrt (\<lambda>a b. Timestamp a < Timestamp b) slots"
  shows "sort_Slice L (\<lambda>a b. Before (Timestamp a) (Timestamp b)) slots = slots"
  using grouping_runs [OF assms(1), of slots 0] assms(2) by (auto simp: byTime_def)

lemma grouping_example:
  assumes "sort_Slice_contract (sort_Slice L)"
  shows "groupConsecutiveSlots L
           [\<lparr>Timestamp = t, Price = p0\<rparr>, \<lparr>Timestamp = t + 60 * Minute, Price = p1\<rparr>,
            \<lparr>Timestamp = t + 120 * Minute, Price = p2\<rparr>,
            \<lparr>Timestamp = t + 300 * Minute, Price = p3\<rparr>] 60 =
         Inr ([\<lparr>Timestamp = t, Price = p0\<rparr>, \<lparr>Timestamp = t + 60 * Minute, Price = p1\<rparr>,
               \<lparr>Timestamp = t + 120 * Minute, Price = p2\<rparr>,
               \<lparr>Timestamp = t + 300 * Minute, Price = p3\<rparr>],
              Some [\<lparr>start = Format L t, end' = Format L (t + 180 * Minute),
                     avg_price = (p0 + p1 + p2) / 3\<rparr>,
                    \<lparr>start = Format L (t + 300 * Minute), end' = Format L (t + 360 * Minute),
                     avg_price = p3\<rparr>])"
proof -
  have "sorted_wrt (\<lambda>a b. Timestamp a < Timestamp b)
          [\<lparr>Timestamp = t, Price = p0\<rparr>, \<lparr>Timestamp = t + 60 * Minute, Price = p1\<rparr>,
            \<lparr>Timestamp = t + 120 * Minute, Price = p2\<rparr>,
            \<lparr>Timestamp = t + 300 * Minute, Price = p3\<rparr>]"
    by (simp add: Minute_def)
  from byTime_strict [OF assms this] show ?thesis
    by (simp add: groupConsecutiveSlots_def Let_def int64_def Minute_def Sub_def Add_def
        maxDuration_def minDuration_def append_slice_def add.commute)
qed

text \<open>
  Claim C3. The slots in chronological order (the list itself when its timestamps ascend
  strictly) are cut into runs: no run is empty, in a run each slot is exactly one step after
  the slot before it, and the first slot of a run is not one step after the last slot of the
  run before it. The result has one interval for each run, in order: from the timestamp of
  the first slot to the timestamp of the last slot plus one step, with the mean of the
  prices. The step is the resolution in minutes as a duration. Slots at \<open>t\<close>, \<open>t + 1h\<close>,
  \<open>t + 2h\<close> and \<open>t + 5h\<close> at resolution 60 give the intervals from \<open>t\<close> to \<open>t + 3h\<close> and
  from \<open>t + 5h\<close> to \<open>t + 6h\<close>.
\<close>

theorem interval_grouping:
  assumes "sort_Slice_contract (sort_Slice L)"
  shows "(\<exists>gs. concat gs = byTime L slots \<and> [] \<notin> set gs \<and>
          (\<forall>g \<in> set gs.
             successively (\<lambda>a b. Timestamp b = Timestamp a + int64 (res * Minute)) g) \<and>
          successively
            (\<lambda>g h. Timestamp (hd h) \<noteq> Timestamp (last g) + int64 (res * Minute)) gs \<and>
          groupConsecutiveSlots L slots res =
            Inr (byTime L slots,
                 if slots = [] then None
                 else Some (map (interval_summary L (int64 (res * Minute))) gs)) \<and>
          (sorted_wrt (\<lambda>a b. Timestamp a < Timestamp b) slots \<longrightarrow> byTime L slots = slots) \<and>
          (in_int64 (res * Minute) \<longrightarrow> int64 (res * Minute) = res * Minute)) \<and>
         groupConsecutiveSlots L
           [\<lparr>Timestamp = t, Price = p0\<rparr>, \<lparr>Timestamp = t + 60 * Minute, Price = p1\<rparr>,
            \<lparr>Timestamp = t + 120 * Minute, Price = p2\<rparr>,
            \<lparr>Timestamp = t + 300 * Minute, Price = p3\<rparr>] 60 =
         Inr ([\<lparr>Timestamp = t, Price = p0\<rparr>, \<lparr>Timestamp = t + 60 * Minute, Price = p1\<rparr>,
               \<lparr>Timestamp = t + 120 * Minute, Price = p2\<rparr>,
               \<lparr>Timestamp = t + 300 * Minute, Price = p3\<rparr>],
              Some [\<lparr>start = Format L t, end' = Format L (t + 180 * Minute),
                     avg_price = (p0 + p1 + p2) / 3\<rparr>,
                    \<lparr>start = Format L (t + 300 * Minute), end' = Format L (t + 360 * Minute),
                     avg_price = p3\<rparr>])"
  using grouping_runs [OF assms, of slots res] grouping_example [OF assms, of t p0 p1 p2 p3]
  by (rule conjI)

theorem interval_grouping_witness:
  "sort_Slice_contract (sort_Slice lib_amd64) \<and>
   (\<exists>gs. concat gs = byTime lib_amd64 four_slots \<and> [] \<notin> set gs \<and>
      groupConsecutiveSlots lib_amd64 four_slots 60 =
        Inr (four_slots, Some (map (interval_summary lib_amd64 (int64 (60 * Minute))) gs))) \<and>
   groupConsecutiveSlots lib_amd64 four_slots 60 =
     Inr (four_slots,
          Some [\<lparr>start = ''00:00'', end' = ''03:00'', avg_price = 2\<rparr>,
                \<lparr>start = ''05:00'', end' = ''06:00'', avg_price = 4\<rparr>])"
proof -
  have c: "sort_Slice_contract (sort_Slice lib_amd64)"
    by (simp add: lib_amd64_def stable_sort_contract)
  have ne: "four_slots \<noteq> []" by (simp add: four_slots_def)
  have f: "Format lib_amd64 0 = ''00:00''" "Format lib_amd64 (180 * Minute) = ''03:00''"
    "Format lib_amd64 (300 * Minute) = ''05:00''" "Format lib_amd64 (360 * Minute) = ''06:00''"
    by (simp_all add: lib_amd64_def hhmm_def digit_def Minute_def)
  from interval_grouping [OF c, of four_slots 60 0 1 2 3 4] c ne f
  show ?thesis by (auto simp: four_slots_def)
qed

end
